theory Spec2Isabelle
  imports Main "HOL-Library.Monad_Syntax"
begin

section \<open>The background cache of \<open>src/lib/backgroundContext.tsx\<close>\<close>

text \<open>
  The module keeps one background-image URL for the whole process: two module-level
  variables, one record in \<open>localStorage\<close>, an image probe, and a React provider whose
  mount effect resolves the URL. The embedding follows the file top to bottom.
\<close>

subsection \<open>Constants (lines 12-14)\<close>

definition BG_CACHE_KEY :: string where
  "BG_CACHE_KEY = ''app_background_cache''"

definition BG_EXPIRE_TIME :: int where
  "BG_EXPIRE_TIME = 24 * 60 * 60 * 1000"

definition BG_LOAD_TIMEOUT :: nat where
  "BG_LOAD_TIMEOUT = 10000"

subsection \<open>JavaScript values the cache code computes with\<close>

text \<open>
  \<open>Date.now()\<close> and the timestamps the module writes are integer epoch milliseconds; on
  integers the double subtraction and comparison of line 35 agree with the integer ones
  (the threshold is an integer, and rounding is monotone). A \<open>number\<close> is therefore an
  integer or \<open>NaN\<close>, which is what \<open>now - undefined\<close> gives.
\<close>

datatype number = Num int | NaN

fun js_minus :: "number \<Rightarrow> number \<Rightarrow> number" where
  "js_minus (Num a) (Num b) = Num (a - b)"
| "js_minus _ _ = NaN"

text \<open>\<open>a > b\<close>: every comparison with \<open>NaN\<close> is false.\<close>

fun js_greater :: "number \<Rightarrow> number \<Rightarrow> bool" where
  "js_greater (Num a) (Num b) = (b < a)"
| "js_greater _ _ = False"

datatype js_error = SyntaxError | TypeError | QuotaExceededError

text \<open>The interface \<open>BackgroundCache\<close> (lines 16-19), as \<open>setCachedBackground\<close> builds it.\<close>

record BackgroundCache =
  url :: string
  timestamp :: int

text \<open>
  What \<open>JSON.parse\<close> can return for a stored string. The type annotation of line 32 is
  not checked at run time, so the parsed value need not have both properties: \<open>JObject u t\<close>
  is an object whose \<open>url\<close> property is the string \<open>u\<close> and whose \<open>timestamp\<close> property is
  the integer \<open>t\<close>, each \<open>None\<close> when the object has no such property. \<open>JNull\<close> is the
  JSON text \<open>null\<close>. Other JSON texts (arrays, properties of other types) are outside the
  model.
\<close>

datatype json = JNull | JObject "string option" "int option"

text \<open>
  A string held by \<open>localStorage\<close>. The code looks at it through \<open>!cached\<close> and
  \<open>JSON.parse(cached)\<close> only, so the model keeps a string by what these two give: the
  empty string, a non-empty string that is not JSON, or a string that parses to a value.
  \<open>JSON.stringify\<close> of a record is a string that parses back to the same record.
\<close>

datatype item = Empty | Malformed | Serialized json

fun JSON_parse :: "item \<Rightarrow> js_error + json" where
  "JSON_parse Empty = Inl SyntaxError"
| "JSON_parse Malformed = Inl SyntaxError"
| "JSON_parse (Serialized v) = Inr v"

definition JSON_stringify :: "BackgroundCache \<Rightarrow> item" where
  "JSON_stringify d = Serialized (JObject (Some (url d)) (Some (timestamp d)))"

text \<open>
  \<open>data.timestamp\<close> as the operand of the subtraction of line 35: reading a property of
  \<open>null\<close> throws, a missing property is \<open>undefined\<close>, which converts to \<open>NaN\<close>.
\<close>

fun timestamp_of :: "json \<Rightarrow> js_error + number" where
  "timestamp_of JNull = Inl TypeError"
| "timestamp_of (JObject u None) = Inr NaN"
| "timestamp_of (JObject u (Some t)) = Inr (Num t)"

text \<open>\<open>data.url\<close> (line 40); \<open>None\<close> is \<open>undefined\<close>.\<close>

fun url_of :: "json \<Rightarrow> js_error + string option" where
  "url_of JNull = Inl TypeError"
| "url_of (JObject u t) = Inr u"

subsection \<open>The image probe \<open>preloadImage\<close> (lines 65-85)\<close>

text \<open>
  The promise executor creates an \<open>Image\<close>, arms a timer of \<open>BG_LOAD_TIMEOUT\<close>
  milliseconds, installs the two handlers and assigns \<open>img.src\<close>. After that only the
  three callbacks run. \<open>image\<close> is what they read and write: the source of the image, the
  armed timer (\<open>None\<close> once cleared or fired) and the promise.
\<close>

datatype promise_state = Pending | Fulfilled bool | Rejected js_error

record image =
  src :: string
  timer :: "nat option"
  promise :: promise_state

text \<open>\<open>resolve(b)\<close>: a promise settles once, later calls change nothing.\<close>

definition resolve :: "bool \<Rightarrow> image \<Rightarrow> image" where
  "resolve b img = (case promise img of Pending \<Rightarrow> img\<lparr>promise := Fulfilled b\<rparr> | _ \<Rightarrow> img)"

definition clearTimeout :: "image \<Rightarrow> image" where
  "clearTimeout img = img\<lparr>timer := None\<rparr>"

text \<open>The timer's callback (lines 68-71).\<close>

definition on_timeout :: "image \<Rightarrow> image" where
  "on_timeout img = resolve False (img\<lparr>src := ''''\<rparr>)"

text \<open>\<open>img.onload\<close> (lines 73-76) and \<open>img.onerror\<close> (lines 78-81).\<close>

definition onload :: "image \<Rightarrow> image" where
  "onload img = resolve True (clearTimeout img)"

definition onerror :: "image \<Rightarrow> image" where
  "onerror img = resolve False (clearTimeout img)"

text \<open>The state the executor leaves (lines 67-83).\<close>

definition new_image :: "string \<Rightarrow> image" where
  "new_image u = \<lparr>src = u, timer = Some BG_LOAD_TIMEOUT, promise = Pending\<rparr>"

text \<open>
  What the browser does with one image load: the events it dispatches at the image before
  the timer is due, the events it dispatches after that (an \<open>error\<close> for the cleared
  source, say), and by how much \<open>Date.now()\<close> has moved when the promise settles (the
  system clock may be set back, so this is an integer). A timer that is still armed when
  it is due fires: that is the contract of \<open>setTimeout\<close>.
\<close>

datatype img_event = OnLoad | OnError

record img_script =
  before :: "img_event list"
  after :: "img_event list"
  elapsed :: int

fun dispatch :: "img_event \<Rightarrow> image \<Rightarrow> image" where
  "dispatch OnLoad img = onload img"
| "dispatch OnError img = onerror img"

definition fire_timer :: "image \<Rightarrow> image" where
  "fire_timer img =
     (case timer img of None \<Rightarrow> img | Some ms \<Rightarrow> on_timeout (img\<lparr>timer := None\<rparr>))"

definition run_image :: "string \<Rightarrow> img_script \<Rightarrow> image" where
  "run_image u s = fold dispatch (after s) (fire_timer (fold dispatch (before s) (new_image u)))"

text \<open>The promise \<open>preloadImage(url)\<close> returns, as the browser's script leaves it.\<close>

definition preloadImage :: "string \<Rightarrow> img_script \<Rightarrow> promise_state" where
  "preloadImage u s = promise (run_image u s)"

text \<open>
  An image whose source is the empty string has nothing to load, and the browser
  dispatches no load event at it (it reports an error, or nothing at all). Of a script,
  such an image sees the error events only.
\<close>

definition served :: "string \<Rightarrow> img_script \<Rightarrow> img_script" where
  "served u s =
     (if u = ''''
      then s\<lparr>before := filter (\<lambda>e. e = OnError) (before s),
             after := filter (\<lambda>e. e = OnError) (after s)\<rparr>
      else s)"

subsection \<open>The process\<close>

text \<open>
  The state of one \<open>BackgroundProvider\<close> instance (lines 88-90): its two \<open>useState\<close>
  cells and the \<open>useRef\<close> cell \<open>isInitializing\<close>, which React keeps for the lifetime of
  that instance.
\<close>

record provider =
  backgroundUrl :: string
  isLoaded :: bool
  isInitializing :: bool

text \<open>
  Everything the module reads or writes. \<open>localStorage\<close> is \<open>None\<close> where
  \<open>typeof window === 'undefined'\<close>; \<open>quota_exceeded\<close> says that \<open>setItem\<close> throws
  (\<open>QuotaExceededError\<close>);
  \<open>clock\<close> is \<open>Date.now()\<close>; \<open>globalBackgroundUrl\<close> (\<open>None\<close> for \<open>null\<close>) and
  \<open>globalIsLoaded\<close> are the module-level variables of lines 22-23; \<open>providers\<close> are the
  mounted provider instances; \<open>requests\<close> lists the URLs assigned to \<open>img.src\<close> by the
  probe so far, oldest first; \<open>network n\<close> is the script of the \<open>n\<close>-th of these image
  loads, of which an image with an empty source sees the error events only.
\<close>

record world =
  localStorage :: "(string \<rightharpoonup> item) option"
  quota_exceeded :: bool
  clock :: int
  globalBackgroundUrl :: "string option"
  globalIsLoaded :: bool
  providers :: "provider list"
  requests :: "string list"
  network :: "nat \<Rightarrow> img_script"

text \<open>The probe of \<open>u\<close> as the \<open>n\<close>-th image load of the process.\<close>

definition probe :: "world \<Rightarrow> nat \<Rightarrow> string \<Rightarrow> promise_state" where
  "probe w n u = preloadImage u (served u (network w n))"

subsection \<open>The cache store (lines 25-58)\<close>

text \<open>
  \<open>localStorage.removeItem(BG_CACHE_KEY)\<close> (lines 36 and 115). Both lines run only after
  a read that found an entry, so the storage is there.
\<close>

definition removeItem :: "world \<Rightarrow> world" where
  "removeItem w =
     w\<lparr>localStorage := map_option (\<lambda>store. store(BG_CACHE_KEY := None)) (localStorage w)\<rparr>"

text \<open>
  The result \<open>None\<close> stands for \<open>null\<close> and for \<open>undefined\<close> (an object without \<open>url\<close>):
  the caller only tests the result for truthiness. Every throw inside the \<open>try\<close> happens
  before any write, so the \<open>catch\<close> returns with the world as it was.
\<close>

definition getCachedBackground :: "world \<Rightarrow> string option \<times> world" where
  "getCachedBackground w =
     (case localStorage w of
        None \<Rightarrow> (None, w)
      | Some store \<Rightarrow>
          (case store BG_CACHE_KEY of
             None \<Rightarrow> (None, w)
           | Some cached \<Rightarrow>
               if cached = Empty then (None, w)
               else
                 (case JSON_parse cached of
                    Inl e \<Rightarrow> (None, w)
                  | Inr data \<Rightarrow>
                      let now = Num (clock w) in
                      (case timestamp_of data of
                         Inl e \<Rightarrow> (None, w)
                       | Inr ts \<Rightarrow>
                           if js_greater (js_minus now ts) (Num BG_EXPIRE_TIME)
                           then (None, removeItem w)
                           else
                             (case url_of data of
                                Inl e \<Rightarrow> (None, w)
                              | Inr u \<Rightarrow> (u, w))))))"

text \<open>
  The \<open>catch\<close> of line 55 only writes to the console, which the model does not keep.
\<close>

definition setCachedBackground :: "string \<Rightarrow> world \<Rightarrow> world" where
  "setCachedBackground u w =
     (case localStorage w of
        None \<Rightarrow> w
      | Some store \<Rightarrow>
          let data = \<lparr>url = u, timestamp = clock w\<rparr> in
          if quota_exceeded w then w
          else w\<lparr>localStorage := Some (store(BG_CACHE_KEY \<mapsto> JSON_stringify data))\<rparr>)"

text \<open>What is stored under the cache key, if the process has storage and an entry.\<close>

definition cache_entry :: "world \<Rightarrow> item option" where
  "cache_entry w = (case localStorage w of None \<Rightarrow> None | Some store \<Rightarrow> store BG_CACHE_KEY)"

subsection \<open>\<open>fetchNewBackground\<close> (lines 60-62)\<close>

text \<open>The template literal prints \<open>Date.now()\<close> in decimal.\<close>

definition digit :: "nat \<Rightarrow> char" where
  "digit d = ''0123456789'' ! d"

fun decimal :: "nat \<Rightarrow> string" where
  "decimal n = (if n < 10 then [digit n] else decimal (n div 10) @ [digit (n mod 10)])"

declare decimal.simps [simp del]

definition number_toString :: "int \<Rightarrow> string" where
  "number_toString k = (if k < 0 then ''-'' @ decimal (nat (- k)) else decimal (nat k))"

definition fetchNewBackground :: "world \<Rightarrow> string" where
  "fetchNewBackground w = ''https://loliapi.com/acg/?'' @ number_toString (clock w)"

subsection \<open>The provider's state setters\<close>

definition update_provider :: "nat \<Rightarrow> (provider \<Rightarrow> provider) \<Rightarrow> world \<Rightarrow> world" where
  "update_provider i f w =
     (if i < length (providers w) then w\<lparr>providers := (providers w)[i := f (providers w ! i)]\<rparr>
      else w)"

definition setBackgroundUrl :: "nat \<Rightarrow> string \<Rightarrow> world \<Rightarrow> world" where
  "setBackgroundUrl i u = update_provider i (\<lambda>c. c\<lparr>backgroundUrl := u\<rparr>)"

definition setIsLoaded :: "nat \<Rightarrow> bool \<Rightarrow> world \<Rightarrow> world" where
  "setIsLoaded i b = update_provider i (\<lambda>c. c\<lparr>isLoaded := b\<rparr>)"

text \<open>\<open>setLoaded\<close> (lines 139-142).\<close>

definition setLoaded :: "nat \<Rightarrow> world \<Rightarrow> world" where
  "setLoaded i w = setIsLoaded i True (w\<lparr>globalIsLoaded := True\<rparr>)"

subsection \<open>\<open>initBackground\<close> and \<open>refreshBackground\<close>, run without interruption\<close>

text \<open>
  \<open>await preloadImage(u)\<close> with nothing else running meanwhile: the image load is the
  next one of the process, the browser plays its script, the clock moves. The caller goes
  on with the value of a fulfilled promise; on a promise that stays pending it would never
  go on, and a rejected one would throw at the \<open>await\<close>: \<open>None\<close> in both cases.
\<close>

definition await_preloadImage :: "string \<Rightarrow> world \<Rightarrow> (bool \<times> world) option" where
  "await_preloadImage u w =
     (let n = length (requests w) in
      case probe w n u of
        Fulfilled isValid \<Rightarrow>
          Some (isValid,
                w\<lparr>requests := requests w @ [u], clock := clock w + elapsed (network w n)\<rparr>)
      | _ \<Rightarrow> None)"

text \<open>
  \<open>initBackground\<close> (lines 104-134) of provider instance \<open>i\<close>. The function returns
  nothing; the model returns the last value of its local \<open>finalUrl\<close> with the world, since
  that is the URL the resolution produced. \<open>if (cached)\<close> is false for \<open>null\<close> and for the
  empty string.
\<close>

definition initBackground :: "nat \<Rightarrow> world \<Rightarrow> (string \<times> world) option" where
  "initBackground i w0 =
     (let finalUrl = '''';
          (cached, w1) = getCachedBackground w0
      in do {
        (finalUrl, w2) \<leftarrow>
          (case cached of
             None \<Rightarrow> Some (finalUrl, w1)
           | Some c \<Rightarrow>
               if c = '''' then Some (finalUrl, w1)
               else do {
                 (isValid, w) \<leftarrow> await_preloadImage c w1;
                 Some (if isValid then (c, w) else (finalUrl, removeItem w))
               });
        (finalUrl, w3) \<leftarrow>
          (if finalUrl = '''' then do {
             let newUrl = fetchNewBackground w2;
             (isValid, w) \<leftarrow> await_preloadImage newUrl w2;
             Some (if isValid then (newUrl, setCachedBackground newUrl w) else (finalUrl, w))
           }
           else Some (finalUrl, w2));
        Some (finalUrl,
              if finalUrl \<noteq> ''''
              then setBackgroundUrl i finalUrl (w3\<lparr>globalBackgroundUrl := Some finalUrl\<rparr>)
              else w3)
      })"

text \<open>\<open>refreshBackground\<close> (lines 144-155) of provider instance \<open>i\<close>.\<close>

definition refreshBackground :: "nat \<Rightarrow> world \<Rightarrow> world option" where
  "refreshBackground i w0 = do {
     let newUrl = fetchNewBackground w0;
     (isValid, w) \<leftarrow> await_preloadImage newUrl w0;
     Some (if isValid
           then setIsLoaded i False
                  (setCachedBackground newUrl
                     (setBackgroundUrl i newUrl
                        (w\<lparr>globalBackgroundUrl := Some newUrl, globalIsLoaded := False\<rparr>)))
           else w)
   }"

subsection \<open>The provider (lines 87-162), event by event\<close>

text \<open>
  JavaScript runs one callback at a time, and an \<open>async\<close> function gives up control at
  each \<open>await\<close>. An \<open>await_point\<close> is such a suspended call: the \<open>await\<close> it waits at, with the
  values that are live there (the provider instance, the URL being probed) and the number
  of its image load in \<open>requests\<close>.
\<close>

datatype await_point =
    AwaitCached nat string nat
  | AwaitNew nat string nat
  | AwaitRefresh nat string nat

fun probed_url :: "await_point \<Rightarrow> string" where
  "probed_url (AwaitCached i c n) = c"
| "probed_url (AwaitNew i newUrl n) = newUrl"
| "probed_url (AwaitRefresh i newUrl n) = newUrl"

fun request_no :: "await_point \<Rightarrow> nat" where
  "request_no (AwaitCached i c n) = n"
| "request_no (AwaitNew i newUrl n) = n"
| "request_no (AwaitRefresh i newUrl n) = n"

text \<open>
  The process between two callbacks: the world and the suspended calls, oldest first.
  \<open>inits\<close> and \<open>fallbacks\<close> are not in the source: they record, for the statements below,
  which provider instances have started \<open>initBackground\<close> and which of these calls have
  reached the fallback fetch of line 121.
\<close>

record process =
  env :: world
  suspended :: "await_point list"
  inits :: "nat list"
  fallbacks :: "nat list"

text \<open>\<open>preloadImage(u)\<close> up to the \<open>await\<close>: the image load starts, the caller is suspended.\<close>

definition preload :: "(nat \<Rightarrow> await_point) \<Rightarrow> string \<Rightarrow> process \<Rightarrow> process" where
  "preload awaiting u p =
     p\<lparr>env := (env p)\<lparr>requests := requests (env p) @ [u]\<rparr>,
       suspended := suspended p @ [awaiting (length (requests (env p)))]\<rparr>"

text \<open>Lines 129-133.\<close>

definition init_finish :: "nat \<Rightarrow> string \<Rightarrow> world \<Rightarrow> world" where
  "init_finish i finalUrl w =
     (if finalUrl \<noteq> ''''
      then setBackgroundUrl i finalUrl (w\<lparr>globalBackgroundUrl := Some finalUrl\<rparr>)
      else w)"

text \<open>Lines 119-122 up to the \<open>await\<close>, or on to the end when \<open>finalUrl\<close> is set.\<close>

definition init_fallback :: "nat \<Rightarrow> string \<Rightarrow> process \<Rightarrow> process" where
  "init_fallback i finalUrl p =
     (if finalUrl = ''''
      then (let newUrl = fetchNewBackground (env p)
            in preload (AwaitNew i newUrl) newUrl (p\<lparr>fallbacks := fallbacks p @ [i]\<rparr>))
      else p\<lparr>env := init_finish i finalUrl (env p)\<rparr>)"

text \<open>Lines 105-110 up to the first \<open>await\<close> that is reached.\<close>

definition init_begin :: "nat \<Rightarrow> process \<Rightarrow> process" where
  "init_begin i p =
     (let finalUrl = '''';
          (cached, w) = getCachedBackground (env p)
      in case cached of
           None \<Rightarrow> init_fallback i finalUrl (p\<lparr>env := w\<rparr>)
         | Some c \<Rightarrow>
             if c = '''' then init_fallback i finalUrl (p\<lparr>env := w\<rparr>)
             else preload (AwaitCached i c) c (p\<lparr>env := w\<rparr>))"

text \<open>Lines 145-146 up to the \<open>await\<close>.\<close>

definition refresh_begin :: "nat \<Rightarrow> process \<Rightarrow> process" where
  "refresh_begin i p =
     (let newUrl = fetchNewBackground (env p) in preload (AwaitRefresh i newUrl) newUrl p)"

text \<open>
  What a suspended call does when its probe has settled with \<open>isValid\<close>: lines 111-117,
  lines 123-133, lines 148-154.
\<close>

fun resume :: "await_point \<Rightarrow> bool \<Rightarrow> process \<Rightarrow> process" where
  "resume (AwaitCached i c n) isValid p =
     (if isValid then init_fallback i c p
      else init_fallback i '''' (p\<lparr>env := removeItem (env p)\<rparr>))"
| "resume (AwaitNew i newUrl n) isValid p =
     (if isValid
      then p\<lparr>env := init_finish i newUrl (setCachedBackground newUrl (env p))\<rparr>
      else p\<lparr>env := init_finish i '''' (env p)\<rparr>)"
| "resume (AwaitRefresh i newUrl n) isValid p =
     (if isValid
      then p\<lparr>env := setIsLoaded i False
                      (setCachedBackground newUrl
                         (setBackgroundUrl i newUrl
                            ((env p)\<lparr>globalBackgroundUrl := Some newUrl,
                                     globalIsLoaded := False\<rparr>)))\<rparr>
      else p)"

text \<open>\<open>if (globalBackgroundUrl)\<close> and \<open>globalBackgroundUrl || ''\<close>.\<close>

definition truthy :: "string option \<Rightarrow> bool" where
  "truthy v = (case v of None \<Rightarrow> False | Some s \<Rightarrow> s \<noteq> '''')"

definition or_empty :: "string option \<Rightarrow> string" where
  "or_empty v = (case v of None \<Rightarrow> '''' | Some s \<Rightarrow> s)"

text \<open>
  The first render of a new provider instance (lines 88-90): React creates its state
  cells with the initial values given, and its \<open>isInitializing\<close> cell with \<open>false\<close>.
  An instance that is unmounted later keeps its place in \<open>providers\<close>; React ignores
  what is written to its cells from then on, and nothing reads them.
\<close>

definition mount :: "world \<Rightarrow> world" where
  "mount w =
     w\<lparr>providers := providers w @
          [\<lparr>backgroundUrl = or_empty (globalBackgroundUrl w), isLoaded = globalIsLoaded w,
            isInitializing = False\<rparr>]\<rparr>"

text \<open>\<open>isInitializing.current\<close> of instance \<open>i\<close>.\<close>

definition guard_set :: "nat \<Rightarrow> world \<Rightarrow> bool" where
  "guard_set i w = (i < length (providers w) \<and> isInitializing (providers w ! i))"

text \<open>The effect of instance \<open>i\<close> (lines 92-137), up to the first \<open>await\<close> of \<open>initBackground\<close>.\<close>

definition useEffect :: "nat \<Rightarrow> process \<Rightarrow> process" where
  "useEffect i p =
     (let w = env p in
      if truthy (globalBackgroundUrl w)
      then p\<lparr>env := setIsLoaded i (globalIsLoaded w)
                      (setBackgroundUrl i (or_empty (globalBackgroundUrl w)) w)\<rparr>
      else if guard_set i w then p
      else init_begin i
             (p\<lparr>env := update_provider i (\<lambda>c. c\<lparr>isInitializing := True\<rparr>) w,
                inits := inits p @ [i]\<rparr>))"

text \<open>
  What can happen next in the process: a provider is mounted, React runs the effect of
  instance \<open>i\<close> (once after the mount, twice in strict mode), the image load of the
  \<open>k\<close>-th suspended call settles, a consumer of instance \<open>i\<close> calls \<open>setLoaded\<close> or
  \<open>refreshBackground\<close>, the clock moves. A call whose promise is still pending stays
  suspended; a rejected promise would throw at the \<open>await\<close> and end the call there.
\<close>

datatype action = Mount | Effect nat | Settle nat | SetLoaded nat | Refresh nat | Tick int

fun step :: "action \<Rightarrow> process \<Rightarrow> process" where
  "step Mount p = p\<lparr>env := mount (env p)\<rparr>"
| "step (Effect i) p = (if i < length (providers (env p)) then useEffect i p else p)"
| "step (Settle k) p =
     (if k < length (suspended p)
      then (let t = suspended p ! k in
            case probe (env p) (request_no t) (probed_url t) of
              Pending \<Rightarrow> p
            | Fulfilled isValid \<Rightarrow>
                resume t isValid (p\<lparr>suspended := take k (suspended p) @ drop (Suc k) (suspended p)\<rparr>)
            | Rejected e \<Rightarrow> p\<lparr>suspended := take k (suspended p) @ drop (Suc k) (suspended p)\<rparr>)
      else p)"
| "step (SetLoaded i) p =
     (if i < length (providers (env p)) then p\<lparr>env := setLoaded i (env p)\<rparr> else p)"
| "step (Refresh i) p = (if i < length (providers (env p)) then refresh_begin i p else p)"
| "step (Tick d) p = p\<lparr>env := (env p)\<lparr>clock := clock (env p) + d\<rparr>\<rparr>"

fun run :: "action list \<Rightarrow> process \<Rightarrow> process" where
  "run [] p = p"
| "run (a # as) p = run as (step a p)"

text \<open>
  The process when the module has just been loaded (lines 22-23), in any environment:
  no URL, not loaded, no provider, no image load yet.
\<close>

definition process_start :: "world \<Rightarrow> process" where
  "process_start w =
     \<lparr>env = w\<lparr>globalBackgroundUrl := None, globalIsLoaded := False, providers := [],
             requests := []\<rparr>,
      suspended = [], inits = [], fallbacks = []\<rparr>"

text \<open>The oldest image load settles after the time its script takes, nothing else happens.\<close>

definition settle_next :: "process \<Rightarrow> process" where
  "settle_next p =
     (case suspended p of
        [] \<Rightarrow> p
      | t # ts \<Rightarrow> step (Settle 0) (step (Tick (elapsed (network (env p) (request_no t)))) p))"

subsection \<open>Notions for the proofs\<close>

text \<open>The guards of the provider instances, in mounting order.\<close>

definition flags :: "world \<Rightarrow> bool list" where
  "flags w = map isInitializing (providers w)"

text \<open>A suspended \<open>initBackground\<close> of instance \<open>i\<close> that has not reached line 120 yet.\<close>

fun awaits_cached :: "nat \<Rightarrow> await_point \<Rightarrow> bool" where
  "awaits_cached i (AwaitCached j c n) = (j = i)"
| "awaits_cached i (AwaitNew j newUrl n) = False"
| "awaits_cached i (AwaitRefresh j newUrl n) = False"

text \<open>
  The fallback fetches instance \<open>i\<close> has made from \<open>initBackground\<close>, and those it may
  still make.
\<close>

definition budget :: "nat \<Rightarrow> process \<Rightarrow> nat" where
  "budget i p = count_list (fallbacks p) i + length (filter (awaits_cached i) (suspended p))"

text \<open>No instance has started \<open>initBackground\<close> twice, and each that has started it has its guard set.\<close>

definition guarded_inits :: "process \<Rightarrow> bool" where
  "guarded_inits p = (distinct (inits p) \<and> list_all (\<lambda>i. guard_set i (env p)) (inits p))"

subsection \<open>Example environments\<close>

text \<open>A network on which every image load sees the same events at once.\<close>

definition always :: "img_event list \<Rightarrow> nat \<Rightarrow> img_script" where
  "always es n = \<lparr>before = es, after = [], elapsed = 0\<rparr>"

text \<open>
  A world with storage that holds \<open>entry\<close> under the cache key, at time \<open>now\<close>, with one
  provider mounted whose effect has run.
\<close>

definition world_with :: "item option \<Rightarrow> int \<Rightarrow> (nat \<Rightarrow> img_script) \<Rightarrow> world" where
  "world_with entry now net =
     \<lparr>localStorage = Some (\<lambda>k. if k = BG_CACHE_KEY then entry else None),
      quota_exceeded = False, clock = now, globalBackgroundUrl = None, globalIsLoaded = False,
      providers = [\<lparr>backgroundUrl = '''', isLoaded = False, isInitializing = True\<rparr>],
      requests = [], network = net\<rparr>"


section \<open>Facts about the parts\<close>

subsection \<open>The cache store\<close>

lemma cache_entry_removeItem: "cache_entry (removeItem w) = None"
  by (simp add: cache_entry_def removeItem_def split: option.splits)

lemma cache_entry_fields:
  "cache_entry (w\<lparr>requests := r\<rparr>) = cache_entry w"
  "cache_entry (w\<lparr>clock := c\<rparr>) = cache_entry w"
  "cache_entry (w\<lparr>globalBackgroundUrl := g\<rparr>) = cache_entry w"
  "cache_entry (w\<lparr>globalIsLoaded := l\<rparr>) = cache_entry w"
  "cache_entry (w\<lparr>providers := ps\<rparr>) = cache_entry w"
  "cache_entry (update_provider i f w) = cache_entry w"
  by (simp_all add: cache_entry_def update_provider_def)

lemma cache_entry_setCachedBackground:
  "cache_entry (setCachedBackground u w) =
     (if localStorage w \<noteq> None \<and> \<not> quota_exceeded w
      then Some (JSON_stringify \<lparr>url = u, timestamp = clock w\<rparr>) else cache_entry w)"
  by (auto simp: cache_entry_def setCachedBackground_def split: option.splits)

lemma getCachedBackground_no_entry:
  "cache_entry w = None \<Longrightarrow> getCachedBackground w = (None, w)"
  by (simp add: getCachedBackground_def cache_entry_def split: option.splits)

lemma getCachedBackground_record:
  "cache_entry w = Some (Serialized (JObject (Some u) (Some t))) \<Longrightarrow>
   getCachedBackground w =
     (if BG_EXPIRE_TIME < clock w - t then (None, removeItem w) else (Some u, w))"
  by (auto simp: getCachedBackground_def cache_entry_def split: option.splits)

lemma getCachedBackground_world:
  "snd (getCachedBackground w) = w \<or>
   (fst (getCachedBackground w) = None \<and> snd (getCachedBackground w) = removeItem w)"
  by (simp add: getCachedBackground_def Let_def split: option.splits sum.splits)

lemma setCachedBackground_fields:
  "requests (setCachedBackground u w) = requests w"
  "clock (setCachedBackground u w) = clock w"
  "globalBackgroundUrl (setCachedBackground u w) = globalBackgroundUrl w"
  "globalIsLoaded (setCachedBackground u w) = globalIsLoaded w"
  "providers (setCachedBackground u w) = providers w"
  "network (setCachedBackground u w) = network w"
  "quota_exceeded (setCachedBackground u w) = quota_exceeded w"
  by (simp_all add: setCachedBackground_def split: option.splits)

lemma removeItem_fields:
  "requests (removeItem w) = requests w"
  "clock (removeItem w) = clock w"
  "globalBackgroundUrl (removeItem w) = globalBackgroundUrl w"
  "globalIsLoaded (removeItem w) = globalIsLoaded w"
  "providers (removeItem w) = providers w"
  "network (removeItem w) = network w"
  "quota_exceeded (removeItem w) = quota_exceeded w"
  "localStorage (removeItem w) = None \<longleftrightarrow> localStorage w = None"
  by (simp_all add: removeItem_def)

lemma getCachedBackground_fields:
  "requests (snd (getCachedBackground w)) = requests w"
  "clock (snd (getCachedBackground w)) = clock w"
  "globalBackgroundUrl (snd (getCachedBackground w)) = globalBackgroundUrl w"
  "globalIsLoaded (snd (getCachedBackground w)) = globalIsLoaded w"
  "providers (snd (getCachedBackground w)) = providers w"
  "network (snd (getCachedBackground w)) = network w"
  "quota_exceeded (snd (getCachedBackground w)) = quota_exceeded w"
  using getCachedBackground_world [of w] by (auto simp: removeItem_fields)

lemma update_provider_fields:
  "requests (update_provider i f w) = requests w"
  "clock (update_provider i f w) = clock w"
  "globalBackgroundUrl (update_provider i f w) = globalBackgroundUrl w"
  "globalIsLoaded (update_provider i f w) = globalIsLoaded w"
  "localStorage (update_provider i f w) = localStorage w"
  "network (update_provider i f w) = network w"
  "quota_exceeded (update_provider i f w) = quota_exceeded w"
  by (simp_all add: update_provider_def)

lemma fetchNewBackground_nonempty: "fetchNewBackground w \<noteq> ''''"
  by (simp add: fetchNewBackground_def)

subsection \<open>The image probe\<close>

lemma promise_dispatch_settled:
  "promise img = Fulfilled b \<Longrightarrow> promise (dispatch e img) = Fulfilled b"
  by (cases e) (simp_all add: onload_def onerror_def resolve_def clearTimeout_def)

lemma promise_fold_settled:
  "promise img = Fulfilled b \<Longrightarrow> promise (fold dispatch es img) = Fulfilled b"
  by (induction es arbitrary: img) (simp_all add: promise_dispatch_settled)

lemma src_dispatch: "src (dispatch e img) = src img"
  by (cases e) (simp_all add: onload_def onerror_def resolve_def clearTimeout_def split: promise_state.splits)

lemma src_fold_dispatch: "src (fold dispatch es img) = src img"
  by (induction es arbitrary: img) (simp_all add: src_dispatch)

lemma timer_dispatch: "timer (dispatch e img) = None"
  by (cases e) (simp_all add: onload_def onerror_def resolve_def clearTimeout_def split: promise_state.splits)

lemma timer_fold_dispatch: "timer (fold dispatch (e # es) img) = None"
proof (induction es arbitrary: e img)
  case Nil
  then show ?case by (simp add: timer_dispatch)
next
  case (Cons a es)
  from Cons [of a "dispatch e img"] show ?case by simp
qed

lemma promise_dispatch_pending:
  "promise img = Pending \<Longrightarrow> promise (dispatch e img) = Fulfilled (e = OnLoad)"
  by (cases e) (simp_all add: onload_def onerror_def resolve_def clearTimeout_def)

lemma fire_timer_cleared: "timer img = None \<Longrightarrow> fire_timer img = img"
  by (simp add: fire_timer_def)

text \<open>No event before the timer is due: the timer fires, clears the source and resolves \<open>false\<close>.\<close>

lemma run_image_timeout:
  "before s = [] \<Longrightarrow>
   promise (run_image u s) = Fulfilled False \<and> src (run_image u s) = ''''"
  by (simp add: run_image_def new_image_def fire_timer_def on_timeout_def resolve_def
      promise_fold_settled src_fold_dispatch)

text \<open>An event before the timer is due: its handler clears the timer and settles the promise.\<close>

lemma run_image_event:
  assumes "before s = e # es"
  shows "promise (run_image u s) = Fulfilled (e = OnLoad) \<and> src (run_image u s) = u"
proof -
  let ?img = "fold dispatch (before s) (new_image u)"
  have "promise (dispatch e (new_image u)) = Fulfilled (e = OnLoad)"
    by (simp add: promise_dispatch_pending new_image_def)
  then have p: "promise ?img = Fulfilled (e = OnLoad)"
    using assms by (simp add: promise_fold_settled)
  have t: "timer ?img = None"
    using assms by (simp only: timer_fold_dispatch)
  have "run_image u s = fold dispatch (after s) ?img"
    by (simp only: run_image_def fire_timer_cleared [OF t])
  moreover have "src (new_image u) = u"
    by (simp add: new_image_def)
  ultimately show ?thesis
    by (simp add: promise_fold_settled [OF p] src_fold_dispatch)
qed

lemma preloadImage_value:
  "preloadImage u s =
     Fulfilled (case before s of [] \<Rightarrow> False | OnLoad # es \<Rightarrow> True | OnError # es \<Rightarrow> False)"
proof (cases "before s")
  case Nil
  with run_image_timeout [OF Nil, of u] show ?thesis
    by (simp add: preloadImage_def)
next
  case (Cons e es)
  with run_image_event [OF Cons, of u] show ?thesis
    by (cases e) (simp_all add: preloadImage_def)
qed

lemma preloadImage_url: "preloadImage u s = preloadImage u' s"
  by (simp add: preloadImage_value)

lemma served_nonempty: "u \<noteq> '''' \<Longrightarrow> served u s = s"
  by (simp add: served_def)

lemma filter_errors_head:
  "(case filter (\<lambda>e. e = OnError) es of [] \<Rightarrow> False | OnLoad # xs \<Rightarrow> True | OnError # xs \<Rightarrow> False)
     = False"
proof (cases "filter (\<lambda>e. e = OnError) es")
  case Nil
  then show ?thesis by simp
next
  case (Cons e xs)
  then have "e \<in> set (filter (\<lambda>e. e = OnError) es)"
    by simp
  then have "e = OnError"
    by simp
  with Cons show ?thesis by simp
qed

text \<open>The empty URL fails the probe on every network.\<close>

lemma probe_empty: "probe w n '''' = Fulfilled False"
  by (simp add: probe_def preloadImage_value served_def filter_errors_head)

lemma probe_nonempty: "u \<noteq> '''' \<Longrightarrow> probe w n u = preloadImage u (network w n)"
  by (simp add: probe_def served_nonempty)

lemma probe_passes_nonempty: "probe w n u = Fulfilled True \<Longrightarrow> u \<noteq> ''''"
  using probe_empty [of w n] by auto

lemma probe_settles: "\<exists>b. probe w n u = Fulfilled b"
  by (simp add: probe_def preloadImage_value)

lemma await_preloadImage_probe:
  "probe w (length (requests w)) u = Fulfilled b \<Longrightarrow>
   await_preloadImage u w =
     Some (b, w\<lparr>requests := requests w @ [u],
                 clock := clock w + elapsed (network w (length (requests w)))\<rparr>)"
  by (simp add: await_preloadImage_def)

lemma await_preloadImage_Some:
  "preloadImage u (network w (length (requests w))) = Fulfilled b \<Longrightarrow> u \<noteq> '''' \<Longrightarrow>
   await_preloadImage u w =
     Some (b, w\<lparr>requests := requests w @ [u],
                 clock := clock w + elapsed (network w (length (requests w)))\<rparr>)"
  by (simp add: await_preloadImage_def probe_nonempty)

subsection \<open>The guards of the provider instances\<close>

lemma guard_set_flags: "guard_set i w = (i < length (flags w) \<and> flags w ! i)"
  by (auto simp: guard_set_def flags_def)

lemma length_flags: "length (flags w) = length (providers w)"
  by (simp add: flags_def)

lemma flags_fields [simp]:
  "flags (w\<lparr>requests := r\<rparr>) = flags w"
  "flags (w\<lparr>clock := c\<rparr>) = flags w"
  "flags (w\<lparr>globalBackgroundUrl := g\<rparr>) = flags w"
  "flags (w\<lparr>globalIsLoaded := l\<rparr>) = flags w"
  "flags (w\<lparr>localStorage := st\<rparr>) = flags w"
  by (simp_all add: flags_def)

lemma flags_removeItem [simp]: "flags (removeItem w) = flags w"
  by (simp add: removeItem_def)

lemma flags_setCachedBackground [simp]: "flags (setCachedBackground u w) = flags w"
  by (simp add: flags_def setCachedBackground_fields)

lemma flags_getCachedBackground [simp]: "flags (snd (getCachedBackground w)) = flags w"
  by (simp add: flags_def getCachedBackground_fields)

lemma flags_update_provider:
  "flags (update_provider i f w) =
     (if i < length (providers w) then (flags w)[i := isInitializing (f (providers w ! i))]
      else flags w)"
  by (simp add: flags_def update_provider_def map_update)

lemma flags_update_same:
  "isInitializing (f (providers w ! i)) = isInitializing (providers w ! i) \<Longrightarrow>
   flags (update_provider i f w) = flags w"
  by (simp add: flags_def update_provider_def map_update) (simp flip: map_update)

lemma flags_setBackgroundUrl [simp]: "flags (setBackgroundUrl i u w) = flags w"
  by (simp add: setBackgroundUrl_def flags_update_same)

lemma flags_setIsLoaded [simp]: "flags (setIsLoaded i b w) = flags w"
  by (simp add: setIsLoaded_def flags_update_same)

lemma flags_setLoaded [simp]: "flags (setLoaded i w) = flags w"
  by (simp add: setLoaded_def)

lemma flags_init_finish [simp]: "flags (init_finish i f w) = flags w"
  by (simp add: init_finish_def)

lemma flags_mount [simp]: "flags (mount w) = flags w @ [False]"
  by (simp add: flags_def mount_def)

lemma preload_fields [simp]:
  "flags (env (preload k u p)) = flags (env p)"
  "inits (preload k u p) = inits p"
  "fallbacks (preload k u p) = fallbacks p"
  "suspended (preload k u p) = suspended p @ [k (length (requests (env p)))]"
  by (simp_all add: preload_def)

lemma init_fallback_fields [simp]:
  "flags (env (init_fallback i f p)) = flags (env p)"
  "inits (init_fallback i f p) = inits p"
  by (simp_all add: init_fallback_def Let_def)

lemma init_begin_fields [simp]:
  "flags (env (init_begin i p)) = flags (env p)"
  "inits (init_begin i p) = inits p"
proof -
  obtain cached w where g: "getCachedBackground (env p) = (cached, w)"
    by (cases "getCachedBackground (env p)")
  then have "flags w = flags (env p)"
    using flags_getCachedBackground [of "env p"] by simp
  with g show "flags (env (init_begin i p)) = flags (env p)"
    and "inits (init_begin i p) = inits p"
    by (simp_all add: init_begin_def split: option.splits)
qed

lemma refresh_begin_fields [simp]:
  "flags (env (refresh_begin i p)) = flags (env p)"
  "inits (refresh_begin i p) = inits p"
  "fallbacks (refresh_begin i p) = fallbacks p"
  by (simp_all add: refresh_begin_def Let_def)

lemma resume_fields [simp]:
  "flags (env (resume t b p)) = flags (env p)"
  "inits (resume t b p) = inits p"
  by (cases t; simp)+

text \<open>A step leaves the guards as they are, sets one, or adds an unset one for a new instance.\<close>

lemma step_flags:
  "flags (env (step a p)) = flags (env p) \<or>
   (\<exists>j<length (flags (env p)). flags (env (step a p)) = (flags (env p))[j := True]) \<or>
   flags (env (step a p)) = flags (env p) @ [False]"
proof (cases a)
  case (Effect j)
  show ?thesis
  proof (cases "j < length (providers (env p)) \<and> \<not> truthy (globalBackgroundUrl (env p)) \<and>
      \<not> guard_set j (env p)")
    case True
    then have "flags (env (step a p)) = (flags (env p))[j := True]"
      using Effect by (simp add: useEffect_def Let_def flags_update_provider)
    moreover have "j < length (flags (env p))"
      using True by (simp add: length_flags)
    ultimately show ?thesis by blast
  next
    case False
    then have "flags (env (step a p)) = flags (env p)"
      using Effect by (auto simp: useEffect_def Let_def)
    then show ?thesis by simp
  qed
qed (simp_all add: Let_def split: promise_state.splits)

lemma step_guard_kept:
  "guard_set i (env p) \<Longrightarrow> guard_set i (env (step a p))"
  using step_flags [of a p] by (auto simp: guard_set_flags nth_list_update nth_append)

lemma run_guard_kept:
  "guard_set i (env p) \<Longrightarrow> guard_set i (env (run acts p))"
  by (induction acts arbitrary: p) (simp_all add: step_guard_kept)

lemma step_inits_other:
  "\<forall>i. a \<noteq> Effect i \<Longrightarrow> inits (step a p) = inits p"
  by (cases a) (simp_all add: Let_def split: promise_state.splits)

lemma step_Effect_inits:
  "inits (step (Effect i) p) =
     (if i < length (providers (env p)) \<and> \<not> truthy (globalBackgroundUrl (env p)) \<and>
         \<not> guard_set i (env p)
      then inits p @ [i] else inits p)"
  by (simp add: useEffect_def Let_def)

lemma step_Effect_sets_guard:
  assumes "inits (step (Effect i) p) \<noteq> inits p"
  shows "guard_set i (env (step (Effect i) p))"
proof -
  from assms have c: "i < length (providers (env p))" "\<not> truthy (globalBackgroundUrl (env p))"
    "\<not> guard_set i (env p)"
    by (auto simp del: step.simps simp: step_Effect_inits split: if_splits)
  then have "flags (env (step (Effect i) p)) = (flags (env p))[i := True]"
    by (simp add: useEffect_def Let_def flags_update_provider)
  with c(1) show ?thesis
    by (simp add: guard_set_flags length_flags)
qed

lemma step_guarded_inits:
  assumes "guarded_inits p"
  shows "guarded_inits (step a p)"
proof (cases "inits (step a p) = inits p")
  case True
  with assms show ?thesis
    by (auto simp: guarded_inits_def list_all_iff step_guard_kept)
next
  case False
  then obtain i where a: "a = Effect i"
    using step_inits_other by blast
  with False have new: "inits (step a p) = inits p @ [i]" and fresh: "\<not> guard_set i (env p)"
    by (auto simp del: step.simps simp: step_Effect_inits split: if_splits)
  have "guard_set i (env (step a p))"
    using False a step_Effect_sets_guard by blast
  moreover have "i \<notin> set (inits p)"
    using assms fresh by (auto simp: guarded_inits_def list_all_iff)
  ultimately show ?thesis
    using assms new by (auto simp: guarded_inits_def list_all_iff step_guard_kept)
qed

lemma run_guarded_inits:
  "guarded_inits p \<Longrightarrow> guarded_inits (run acts p)"
  by (induction acts arbitrary: p) (simp_all add: step_guarded_inits)

lemma guarded_inits_start: "guarded_inits (process_start w)"
  by (simp add: guarded_inits_def process_start_def)

lemma distinct_count_list: "distinct xs \<Longrightarrow> count_list xs x \<le> 1"
  by (induction xs) auto

subsection \<open>Fallback fetches\<close>

lemma budget_fields [simp]:
  "budget i (p\<lparr>env := w\<rparr>) = budget i p"
  "budget i (p\<lparr>inits := is\<rparr>) = budget i p"
  by (simp_all add: budget_def)

lemma budget_init_fallback:
  "budget i (init_fallback j f p) = budget i p + (if f = '''' \<and> j = i then 1 else 0)"
  by (simp add: budget_def init_fallback_def preload_def Let_def)

lemma budget_init_begin:
  "budget i (init_begin j p) = budget i p + (if j = i then 1 else 0)"
proof -
  obtain cached w where g: "getCachedBackground (env p) = (cached, w)"
    by (cases "getCachedBackground (env p)")
  show ?thesis
  proof (cases "cached \<in> {None, Some ''''}")
    case True
    with g show ?thesis
      by (auto simp: init_begin_def budget_init_fallback)
  next
    case False
    with g show ?thesis
      by (cases cached) (auto simp: init_begin_def budget_def preload_def)
  qed
qed

lemma budget_refresh_begin: "budget i (refresh_begin j p) = budget i p"
  by (simp add: budget_def refresh_begin_def preload_def Let_def)

lemma filter_remove_nth:
  assumes "k < length ts"
  shows "length (filter P (take k ts @ drop (Suc k) ts)) + (if P (ts ! k) then 1 else 0) =
         length (filter P ts)"
proof -
  have "ts = take k ts @ ts ! k # drop (Suc k) ts"
    using assms by (rule id_take_nth_drop)
  then have "length (filter P ts) = length (filter P (take k ts @ ts ! k # drop (Suc k) ts))"
    by simp
  then show ?thesis by simp
qed

lemma budget_settle:
  assumes "k < length (suspended p)"
  shows "budget i (resume (suspended p ! k) b (p\<lparr>suspended := take k (suspended p) @ drop (Suc k) (suspended p)\<rparr>))
           \<le> budget i p"
proof -
  let ?p' = "p\<lparr>suspended := take k (suspended p) @ drop (Suc k) (suspended p)\<rparr>"
  have rem: "budget i ?p' + (if awaits_cached i (suspended p ! k) then 1 else 0) = budget i p"
    using filter_remove_nth [OF assms, of "awaits_cached i"] by (simp add: budget_def)
  show ?thesis
  proof (cases "suspended p ! k")
    case (AwaitCached j c n)
    then show ?thesis
      using rem by (auto simp: budget_init_fallback)
  next
    case (AwaitNew j newUrl n)
    then show ?thesis
      using rem by auto
  next
    case (AwaitRefresh j newUrl n)
    then show ?thesis
      using rem by auto
  qed
qed

text \<open>Only a new \<open>initBackground\<close> of instance \<open>i\<close> raises its budget, and by one.\<close>

lemma step_budget:
  "budget i (step a p) + count_list (inits p) i \<le> budget i p + count_list (inits (step a p)) i"
proof (cases a)
  case (Effect j)
  then show ?thesis
    by (simp add: useEffect_def Let_def budget_init_begin)
next
  case (Settle k)
  then show ?thesis
    using budget_settle [of k p i]
    by (auto simp: Let_def probe_def preloadImage_value)
qed (simp_all add: budget_refresh_begin)

lemma run_budget:
  "budget i p \<le> count_list (inits p) i \<Longrightarrow>
   budget i (run acts p) \<le> count_list (inits (run acts p)) i"
proof (induction acts arbitrary: p)
  case Nil
  then show ?case by simp
next
  case (Cons a acts)
  have "budget i (step a p) \<le> count_list (inits (step a p)) i"
    using step_budget [of i a p] Cons.prems by linarith
  then show ?case
    using Cons.IH by simp
qed

subsection \<open>Publication of the URL, and new providers\<close>

lemma globalBackgroundUrl_setters:
  "globalBackgroundUrl (setBackgroundUrl i u w) = globalBackgroundUrl w"
  "globalBackgroundUrl (setIsLoaded i b w) = globalBackgroundUrl w"
  "globalBackgroundUrl (setLoaded i w) = globalBackgroundUrl w"
  "globalBackgroundUrl (mount w) = globalBackgroundUrl w"
  by (simp_all add: setBackgroundUrl_def setIsLoaded_def setLoaded_def mount_def
      update_provider_fields)

lemma globalBackgroundUrl_preload:
  "globalBackgroundUrl (env (preload k u p)) = globalBackgroundUrl (env p)"
  by (simp add: preload_def)

lemma truthy_init_fallback:
  "truthy (globalBackgroundUrl (env p)) \<Longrightarrow>
   truthy (globalBackgroundUrl (env (init_fallback i f p)))"
  by (simp add: init_fallback_def init_finish_def Let_def globalBackgroundUrl_preload
      globalBackgroundUrl_setters truthy_def)

lemma truthy_resume:
  assumes "truthy (globalBackgroundUrl (env p))" and "b \<Longrightarrow> probed_url t \<noteq> ''''"
  shows "truthy (globalBackgroundUrl (env (resume t b p)))"
proof (cases t)
  case (AwaitCached i c n)
  with assms show ?thesis
    by (simp add: truthy_init_fallback removeItem_fields)
next
  case (AwaitNew i newUrl n)
  with assms show ?thesis
    by (simp add: init_finish_def globalBackgroundUrl_setters truthy_def)
next
  case (AwaitRefresh i newUrl n)
  with assms show ?thesis
    by (simp add: globalBackgroundUrl_setters setCachedBackground_fields truthy_def)
qed

text \<open>A published URL stays published: the variable is only ever assigned a URL that passed the probe.\<close>

lemma step_truthy_kept:
  assumes "truthy (globalBackgroundUrl (env p))"
  shows "truthy (globalBackgroundUrl (env (step a p)))"
proof (cases a)
  case (Settle k)
  show ?thesis
  proof (cases "k < length (suspended p)")
    case True
    let ?t = "suspended p ! k"
    obtain b where b: "probe (env p) (request_no ?t) (probed_url ?t) = Fulfilled b"
      using probe_settles by blast
    have "b \<Longrightarrow> probed_url ?t \<noteq> ''''"
      using b probe_passes_nonempty [of "env p" "request_no ?t" "probed_url ?t"] by simp
    then have "truthy (globalBackgroundUrl
        (env (resume ?t b (p\<lparr>suspended := take k (suspended p) @ drop (Suc k) (suspended p)\<rparr>))))"
      using assms by (intro truthy_resume) simp_all
    with True b Settle show ?thesis
      by (simp add: Let_def)
  next
    case False
    with assms Settle show ?thesis by simp
  qed
next
  case (Effect i)
  with assms show ?thesis
    by (simp add: useEffect_def Let_def globalBackgroundUrl_setters)
next
  case (Refresh i)
  with assms show ?thesis
    by (simp add: refresh_begin_def Let_def globalBackgroundUrl_preload)
qed (use assms in \<open>simp_all add: globalBackgroundUrl_setters\<close>)

lemma step_inits_published:
  "truthy (globalBackgroundUrl (env p)) \<Longrightarrow> inits (step a p) = inits p"
proof (cases "\<exists>i. a = Effect i")
  case True
  assume "truthy (globalBackgroundUrl (env p))"
  with True show ?thesis
    by (auto simp del: step.simps simp: step_Effect_inits)
next
  case False
  then show ?thesis
    by (simp add: step_inits_other)
qed

lemma run_inits_published:
  "truthy (globalBackgroundUrl (env p)) \<Longrightarrow> inits (run acts p) = inits p"
proof (induction acts arbitrary: p)
  case Nil
  then show ?case by simp
next
  case (Cons a acts)
  from Cons.prems have "truthy (globalBackgroundUrl (env (step a p)))"
    by (rule step_truthy_kept)
  from Cons.IH [OF this] Cons.prems show ?case
    by (simp add: step_inits_published)
qed

lemma effect_adopts:
  assumes "j < length (providers (env p))" and "truthy (globalBackgroundUrl (env p))"
  shows "backgroundUrl (providers (env (step (Effect j) p)) ! j) =
           or_empty (globalBackgroundUrl (env p))"
  using assms
  by (simp add: useEffect_def Let_def setIsLoaded_def setBackgroundUrl_def update_provider_def)

lemma effect_starts:
  assumes "j < length (providers (env p))" and "\<not> truthy (globalBackgroundUrl (env p))"
    and "\<not> guard_set j (env p)"
  shows "inits (step (Effect j) p) = inits p @ [j]"
  using assms by (simp del: step.simps add: step_Effect_inits)

text \<open>A provider mounted while no URL is published starts \<open>initBackground\<close> in its first effect.\<close>

lemma mount_effect_inits:
  assumes "\<not> truthy (globalBackgroundUrl (env p))"
  shows "inits (run [Mount, Effect (length (providers (env p)))] p) =
           inits p @ [length (providers (env p))]"
proof -
  let ?k = "length (providers (env p))"
  let ?q = "step Mount p"
  have "?k < length (providers (env ?q))" "\<not> guard_set ?k (env ?q)"
    "\<not> truthy (globalBackgroundUrl (env ?q))" "inits ?q = inits p"
    using assms by (simp_all add: mount_def guard_set_def)
  from effect_starts [OF this(1,3,2)] this(4) show ?thesis
    by simp
qed

subsection \<open>The uninterrupted functions are the event-wise ones, run alone\<close>


lemma settle_next_single:
  assumes "suspended p = [t]"
    and "preloadImage (probed_url t) (network (env p) (request_no t)) = Fulfilled b"
    and "probed_url t \<noteq> ''''"
  shows "settle_next p =
           resume t b (p\<lparr>env := (env p)\<lparr>clock := clock (env p) +
                                   elapsed (network (env p) (request_no t))\<rparr>,
                         suspended := []\<rparr>)"
  using assms by (simp add: settle_next_def probe_nonempty)





lemma refreshBackground_events:
  assumes idle: "suspended p = []"
  shows "refreshBackground i (env p) = Some (env (settle_next (refresh_begin i p))) \<and>
         suspended (settle_next (refresh_begin i p)) = []"
proof -
  let ?newUrl = "fetchNewBackground (env p)"
  let ?n = "length (requests (env p))"
  obtain b where b: "preloadImage ?newUrl (network (env p) ?n) = Fulfilled b"
    by (simp add: preloadImage_value)
  let ?q = "refresh_begin i p"
  have q: "suspended ?q = [AwaitRefresh i ?newUrl ?n]" "network (env ?q) = network (env p)"
    using idle by (simp_all add: refresh_begin_def preload_def Let_def)
  have "settle_next ?q =
      resume (AwaitRefresh i ?newUrl ?n) b
        (?q\<lparr>env := (env ?q)\<lparr>clock := clock (env ?q) + elapsed (network (env ?q) ?n)\<rparr>,
            suspended := []\<rparr>)"
    using settle_next_single [of ?q "AwaitRefresh i ?newUrl ?n" b] q b
    by (simp add: fetchNewBackground_nonempty)
  then show ?thesis
    using await_preloadImage_Some [OF b fetchNewBackground_nonempty]
    by (cases b) (simp_all add: refreshBackground_def refresh_begin_def preload_def Let_def)
qed

subsection \<open>Evaluating the examples\<close>

lemmas world_eval = world_with_def always_def cache_entry_def BG_EXPIRE_TIME_def
  preloadImage_value probe_def served_def getCachedBackground_def removeItem_def setCachedBackground_def
  JSON_stringify_def await_preloadImage_def fetchNewBackground_def number_toString_def
  decimal.simps digit_def setBackgroundUrl_def setIsLoaded_def update_provider_def Let_def

lemmas process_eval = process_start_def useEffect_def mount_def guard_set_def truthy_def
  or_empty_def init_begin_def init_fallback_def init_finish_def preload_def refresh_begin_def

section \<open>The claims\<close>

subsection \<open>The cache store\<close>

text \<open>
  Claim C1. For every stored cache record \<open>{url, timestamp}\<close>: a read at a time \<open>now\<close> with
  \<open>now - timestamp\<close> above 24 hours returns absent and deletes the entry from storage, so
  that a read at any later time returns absent too; a read with \<open>now - timestamp\<close> of at
  most 24 hours returns the record's URL and leaves the world as it is.
\<close>

theorem getCachedBackground_expiry:
  assumes "cache_entry w = Some (Serialized (JObject (Some u) (Some t)))"
  shows "if BG_EXPIRE_TIME < clock w - t
         then getCachedBackground w = (None, removeItem w) \<and>
              cache_entry (removeItem w) = None \<and>
              (\<forall>c. fst (getCachedBackground ((removeItem w)\<lparr>clock := c\<rparr>)) = None)
         else getCachedBackground w = (Some u, w)"
  using assms
  by (simp add: getCachedBackground_record getCachedBackground_no_entry
      cache_entry_fields cache_entry_removeItem)

text \<open>
  A record written at time 0 is gone at 25 hours, and a read one millisecond later finds
  nothing; at one hour the read returns its URL.
\<close>

theorem getCachedBackground_expiry_witness:
  "getCachedBackground
     (world_with (Some (Serialized (JObject (Some ''a'') (Some 0)))) 90000000 (always [])) =
     (None, world_with None 90000000 (always [])) \<and>
   fst (getCachedBackground (world_with None 90000001 (always []))) = None \<and>
   getCachedBackground
     (world_with (Some (Serialized (JObject (Some ''a'') (Some 0)))) 3600000 (always [])) =
     (Some ''a'', world_with (Some (Serialized (JObject (Some ''a'') (Some 0)))) 3600000 (always []))"
proof -
  let ?old = "world_with (Some (Serialized (JObject (Some ''a'') (Some 0)))) 90000000 (always [])"
  let ?new = "world_with (Some (Serialized (JObject (Some ''a'') (Some 0)))) 3600000 (always [])"
  have old: "cache_entry ?old = Some (Serialized (JObject (Some ''a'') (Some 0)))"
    and new: "cache_entry ?new = Some (Serialized (JObject (Some ''a'') (Some 0)))"
    by (simp_all add: world_with_def cache_entry_def)
  have gone: "removeItem ?old = world_with None 90000000 (always [])"
    by (auto simp: world_with_def removeItem_def)
  have later: "(world_with None 90000000 (always []))\<lparr>clock := 90000001\<rparr> =
      world_with None 90000001 (always [])"
    by (simp add: world_with_def)
  from getCachedBackground_expiry [OF old] getCachedBackground_expiry [OF new] gone later
  show ?thesis
    by (auto simp: world_with_def BG_EXPIRE_TIME_def split: if_splits)
qed

text \<open>
  Claim C9. There is a stored string that parses as JSON and is no well-formed cache
  record, its \<open>timestamp\<close> property being absent, for which the read returns the \<open>url\<close>
  property as present at every time: the subtraction gives \<open>NaN\<close>, and the expiry
  comparison with \<open>NaN\<close> is false.
\<close>

theorem getCachedBackground_without_timestamp:
  "\<exists>entry. JSON_parse entry = Inr (JObject (Some u) None) \<and>
     timestamp_of (JObject (Some u) None) = Inr NaN \<and>
     (\<forall>w. cache_entry w = Some entry \<longrightarrow>
        \<not> js_greater (js_minus (Num (clock w)) NaN) (Num BG_EXPIRE_TIME) \<and>
        getCachedBackground w = (Some u, w))"
  by (rule exI [of _ "Serialized (JObject (Some u) None)"])
     (auto simp: getCachedBackground_def cache_entry_def split: option.splits)

theorem getCachedBackground_without_timestamp_witness:
  "\<exists>entry. JSON_parse entry = Inr (JObject (Some ''a'') None) \<and>
     getCachedBackground (world_with (Some entry) 90000000 (always [])) =
       (Some ''a'', world_with (Some entry) 90000000 (always []))"
proof -
  from getCachedBackground_without_timestamp [of "''a''"]
  obtain entry where entry: "JSON_parse entry = Inr (JObject (Some ''a'') None)"
    and read: "\<And>w. cache_entry w = Some entry \<Longrightarrow> getCachedBackground w = (Some ''a'', w)"
    by blast
  have "cache_entry (world_with (Some entry) 90000000 (always [])) = Some entry"
    by (simp add: world_with_def cache_entry_def)
  from read [OF this] entry show ?thesis
    by blast
qed

text \<open>
  Claim C10. Round trip: when \<open>setCachedBackground(url)\<close> succeeds at time \<open>T\<close> (there is
  storage, and \<open>setItem\<close> does not throw), a read in any later world that still holds the
  entry written, at a time \<open>now\<close> with \<open>now - T\<close> of at most 24 hours, returns that URL.
\<close>

theorem setCachedBackground_roundtrip:
  assumes "localStorage w \<noteq> None" and "\<not> quota_exceeded w"
    and "cache_entry w' = cache_entry (setCachedBackground u w)"
    and "clock w' - clock w \<le> BG_EXPIRE_TIME"
  shows "getCachedBackground w' = (Some u, w')"
proof -
  have "cache_entry w' = Some (Serialized (JObject (Some u) (Some (clock w))))"
    using assms(1-3) by (simp add: cache_entry_setCachedBackground JSON_stringify_def)
  from getCachedBackground_record [OF this] assms(4) show ?thesis
    by simp
qed

text \<open>Written at time 1000 and read exactly 24 hours later.\<close>

theorem setCachedBackground_roundtrip_witness:
  "localStorage (world_with None 1000 (always [])) \<noteq> None \<and>
   \<not> quota_exceeded (world_with None 1000 (always [])) \<and>
   clock ((setCachedBackground ''a'' (world_with None 1000 (always [])))\<lparr>clock := 86401000\<rparr>) -
     clock (world_with None 1000 (always [])) \<le> BG_EXPIRE_TIME \<and>
   getCachedBackground
     ((setCachedBackground ''a'' (world_with None 1000 (always [])))\<lparr>clock := 86401000\<rparr>) =
     (Some ''a'', (setCachedBackground ''a'' (world_with None 1000 (always [])))\<lparr>clock := 86401000\<rparr>)"
proof -
  let ?w = "world_with None 1000 (always [])"
  let ?w' = "(setCachedBackground ''a'' ?w)\<lparr>clock := 86401000\<rparr>"
  have h1: "localStorage ?w \<noteq> None" and h2: "\<not> quota_exceeded ?w"
    by (simp_all add: world_with_def)
  have h3: "cache_entry ?w' = cache_entry (setCachedBackground ''a'' ?w)"
    by (simp add: cache_entry_fields)
  have h4: "clock ?w' - clock ?w \<le> BG_EXPIRE_TIME"
    by (simp add: world_with_def BG_EXPIRE_TIME_def)
  from setCachedBackground_roundtrip [OF h1 h2 h3 h4] h1 h2 h4 show ?thesis
    by simp
qed

subsection \<open>The image probe\<close>

text \<open>
  Claim C6. For every URL and whatever the browser does, the promise of
  \<open>preloadImage(url)\<close> is fulfilled with a boolean, neither left pending nor rejected:
  with \<open>true\<close> when a load event comes first, with \<open>false\<close> when an error event comes
  first, and with \<open>false\<close> when the timer of 10000 milliseconds is due before any event;
  in that last case, and only then, the source of the image has been cleared.
\<close>

theorem preloadImage_settles:
  "preloadImage u s =
     Fulfilled (case before s of [] \<Rightarrow> False | OnLoad # es \<Rightarrow> True | OnError # es \<Rightarrow> False) \<and>
   src (run_image u s) = (if before s = [] then '''' else u) \<and>
   timer (new_image u) = Some 10000"
proof (cases "before s")
  case Nil
  with run_image_timeout [OF Nil, of u] show ?thesis
    by (simp add: preloadImage_def new_image_def BG_LOAD_TIMEOUT_def)
next
  case (Cons e es)
  with run_image_event [OF Cons, of u] show ?thesis
    by (cases e) (simp_all add: preloadImage_def new_image_def BG_LOAD_TIMEOUT_def)
qed

subsection \<open>\<open>initBackground\<close>\<close>

text \<open>
  Claim C2. For every cache record within its 24 hours whose URL passes the probe,
  \<open>initBackground\<close> ends with that URL, starts no image load but the probe of that URL
  (no fallback URL is generated or probed), leaves the storage as it is, and publishes
  the URL in \<open>globalBackgroundUrl\<close>. A URL that passes the probe is not empty, so
  \<open>if (cached)\<close> lets it through.
\<close>

theorem initBackground_cache_hit:
  assumes "cache_entry w = Some (Serialized (JObject (Some u) (Some t)))"
    and "clock w - t \<le> BG_EXPIRE_TIME"
    and "probe w (length (requests w)) u = Fulfilled True"
  shows "\<exists>w'. initBackground i w = Some (u, w') \<and>
           requests w' = requests w @ [u] \<and>
           localStorage w' = localStorage w \<and>
           globalBackgroundUrl w' = Some u"
proof -
  have "getCachedBackground w = (Some u, w)"
    using assms(1,2) by (simp add: getCachedBackground_record)
  moreover have "u \<noteq> ''''"
    using assms(3) by (rule probe_passes_nonempty)
  ultimately show ?thesis
    using await_preloadImage_probe [OF assms(3)]
    by (simp add: initBackground_def setBackgroundUrl_def update_provider_fields)
qed

theorem initBackground_cache_hit_witness:
  "clock (world_with (Some (Serialized (JObject (Some ''a'') (Some 0)))) 5 (always [OnLoad])) - 0
     \<le> BG_EXPIRE_TIME \<and>
   probe (world_with (Some (Serialized (JObject (Some ''a'') (Some 0)))) 5 (always [OnLoad])) 0 ''a'' =
     Fulfilled True \<and>
   (\<exists>w'. initBackground 0
            (world_with (Some (Serialized (JObject (Some ''a'') (Some 0)))) 5 (always [OnLoad])) =
            Some (''a'', w') \<and>
          requests w' = [''a''] \<and>
          cache_entry w' = Some (Serialized (JObject (Some ''a'') (Some 0))) \<and>
          globalBackgroundUrl w' = Some ''a'')"
proof -
  let ?w = "world_with (Some (Serialized (JObject (Some ''a'') (Some 0)))) 5 (always [OnLoad])"
  have h1: "cache_entry ?w = Some (Serialized (JObject (Some ''a'') (Some 0)))"
    by (simp add: world_with_def cache_entry_def)
  have h2: "clock ?w - 0 \<le> BG_EXPIRE_TIME"
    by (simp add: world_with_def BG_EXPIRE_TIME_def)
  have h3: "probe ?w (length (requests ?w)) ''a'' = Fulfilled True"
    by (simp add: world_eval)
  have h4: "probe ?w 0 ''a'' = Fulfilled True"
    by (simp add: world_eval)
  from initBackground_cache_hit [OF h1 h2 h3, of 0] h1 h2 h4 show ?thesis
    by (auto simp: cache_entry_def world_with_def)
qed




text \<open>
  Claim C4. Whenever the probes of a resolution fail (the first image load, and the
  second when a cached URL was probed first), \<open>initBackground\<close> ends with the empty
  string, and \<open>globalBackgroundUrl\<close>, \<open>globalIsLoaded\<close> and the state of every provider
  are what they were.
\<close>

theorem initBackground_total_failure:
  assumes first: "\<forall>u. preloadImage u (network w (length (requests w))) = Fulfilled False"
    and second: "fst (getCachedBackground w) \<notin> {None, Some ''''} \<Longrightarrow>
                 \<forall>u. preloadImage u (network w (Suc (length (requests w)))) = Fulfilled False"
  shows "\<exists>w'. initBackground i w = Some ('''', w') \<and>
           globalBackgroundUrl w' = globalBackgroundUrl w \<and>
           globalIsLoaded w' = globalIsLoaded w \<and>
           providers w' = providers w"
proof -
  obtain cached w1 where get: "getCachedBackground w = (cached, w1)"
    by (cases "getCachedBackground w")
  have w1: "requests w1 = requests w" "network w1 = network w"
    "globalBackgroundUrl w1 = globalBackgroundUrl w" "globalIsLoaded w1 = globalIsLoaded w"
    "providers w1 = providers w"
    using getCachedBackground_fields [of w] get by simp_all
  let ?n = "length (requests w)"
  show ?thesis
  proof (cases "cached \<in> {None, Some ''''}")
    case True
    let ?newUrl = "fetchNewBackground w1"
    have "await_preloadImage ?newUrl w1 =
        Some (False, w1\<lparr>requests := requests w1 @ [?newUrl],
                        clock := clock w1 + elapsed (network w1 (length (requests w1)))\<rparr>)"
      by (rule await_preloadImage_Some) (simp_all add: w1 first fetchNewBackground_nonempty)
    with True get w1 show ?thesis
      by (auto simp: initBackground_def Let_def)
  next
    case False
    then obtain c where c: "cached = Some c" "c \<noteq> ''''"
      by (cases cached) auto
    let ?w2 = "removeItem (w1\<lparr>requests := requests w1 @ [c],
        clock := clock w1 + elapsed (network w1 (length (requests w1)))\<rparr>)"
    let ?newUrl = "fetchNewBackground ?w2"
    have a1: "await_preloadImage c w1 =
        Some (False, w1\<lparr>requests := requests w1 @ [c],
                        clock := clock w1 + elapsed (network w1 (length (requests w1)))\<rparr>)"
      by (rule await_preloadImage_Some) (simp_all add: w1 first c)
    have "preloadImage ?newUrl (network w (Suc ?n)) = Fulfilled False"
      using second False get by simp
    then have a2: "await_preloadImage ?newUrl ?w2 =
        Some (False, ?w2\<lparr>requests := requests ?w2 @ [?newUrl],
                        clock := clock ?w2 + elapsed (network ?w2 (length (requests ?w2)))\<rparr>)"
      by (intro await_preloadImage_Some)
         (simp_all add: w1 removeItem_fields fetchNewBackground_nonempty)
    from c get a1 a2 w1 show ?thesis
      by (simp add: initBackground_def Let_def removeItem_fields)
  qed
qed

text \<open>A URL is published and marked loaded, a fresh record is cached, and the network is down.\<close>

theorem initBackground_total_failure_witness:
  "(\<forall>u. preloadImage u (always [OnError] 0) = Fulfilled False) \<and>
   (\<forall>u. preloadImage u (always [OnError] 1) = Fulfilled False) \<and>
   (\<exists>w'. initBackground 0
            ((world_with (Some (Serialized (JObject (Some ''a'') (Some 0)))) 5 (always [OnError]))
               \<lparr>globalBackgroundUrl := Some ''b'', globalIsLoaded := True\<rparr>) =
            Some ('''', w') \<and>
          globalBackgroundUrl w' = Some ''b'' \<and> globalIsLoaded w' = True)"
proof -
  let ?w = "(world_with (Some (Serialized (JObject (Some ''a'') (Some 0)))) 5 (always [OnError]))
               \<lparr>globalBackgroundUrl := Some ''b'', globalIsLoaded := True\<rparr>"
  have h0: "\<forall>u. preloadImage u (always [OnError] 0) = Fulfilled False"
    and h1: "\<forall>u. preloadImage u (always [OnError] 1) = Fulfilled False"
    by (simp_all add: always_def preloadImage_value)
  have first: "\<forall>u. preloadImage u (network ?w (length (requests ?w))) = Fulfilled False"
    by (simp add: world_with_def always_def preloadImage_value)
  have second: "\<forall>u. preloadImage u (network ?w (Suc (length (requests ?w)))) = Fulfilled False"
    by (simp add: world_with_def always_def preloadImage_value)
  from initBackground_total_failure [OF first second, of 0] h0 h1 show ?thesis
    by (auto simp: world_with_def)
qed

subsection \<open>\<open>refreshBackground\<close>\<close>

text \<open>
  Claim C5, amended. \<open>refreshBackground\<close> always generates and probes a new fallback URL,
  whatever the cache holds. If the probe passes, it replaces \<open>globalBackgroundUrl\<close> by
  the new URL and resets \<open>globalIsLoaded\<close> to false, and, when the write succeeds (there
  is storage, and \<open>setItem\<close> does not throw), the cache record becomes the new URL with the
  time of the write; when the write fails, the cache is left as it was. If the probe
  fails, the two variables and the storage are unchanged.
\<close>

theorem refreshBackground_result:
  "\<exists>w'. refreshBackground i w = Some w' \<and>
     requests w' = requests w @ [fetchNewBackground w] \<and>
     (if preloadImage (fetchNewBackground w) (network w (length (requests w))) = Fulfilled True
      then globalBackgroundUrl w' = Some (fetchNewBackground w) \<and>
           globalIsLoaded w' = False \<and>
           cache_entry w' =
             (if localStorage w \<noteq> None \<and> \<not> quota_exceeded w
              then Some (JSON_stringify \<lparr>url = fetchNewBackground w, timestamp = clock w'\<rparr>)
              else cache_entry w)
      else globalBackgroundUrl w' = globalBackgroundUrl w \<and>
           globalIsLoaded w' = globalIsLoaded w \<and>
           localStorage w' = localStorage w)"
proof -
  let ?newUrl = "fetchNewBackground w"
  obtain b where b: "preloadImage ?newUrl (network w (length (requests w))) = Fulfilled b"
    by (simp add: preloadImage_value)
  from await_preloadImage_Some [OF b fetchNewBackground_nonempty] b show ?thesis
    by (cases b)
       (simp_all add: refreshBackground_def Let_def setIsLoaded_def setBackgroundUrl_def
          update_provider_fields setCachedBackground_fields cache_entry_fields
          cache_entry_setCachedBackground)
qed

text \<open>
  The claim as first stated promises the overwrite whenever the probe passes. When
  \<open>setItem\<close> throws (the quota is exceeded), line 55 catches the error: the new URL is
  published, and the cache still holds the old record.
\<close>

theorem refreshBackground_quota_counterexample:
  "preloadImage
     (fetchNewBackground
        ((world_with (Some (Serialized (JObject (Some ''old'') (Some 0)))) 5 (always [OnLoad]))
           \<lparr>quota_exceeded := True\<rparr>))
     (always [OnLoad] 0) = Fulfilled True \<and>
   map_option globalBackgroundUrl
     (refreshBackground 0
        ((world_with (Some (Serialized (JObject (Some ''old'') (Some 0)))) 5 (always [OnLoad]))
           \<lparr>quota_exceeded := True\<rparr>)) =
     Some (Some ''https://loliapi.com/acg/?5'') \<and>
   map_option cache_entry
     (refreshBackground 0
        ((world_with (Some (Serialized (JObject (Some ''old'') (Some 0)))) 5 (always [OnLoad]))
           \<lparr>quota_exceeded := True\<rparr>)) =
     Some (Some (Serialized (JObject (Some ''old'') (Some 0))))"
  by (simp add: world_eval refreshBackground_def)

subsection \<open>The guard of the effect\<close>

text \<open>
  Claim C7, amended. The guard is a \<open>useRef\<close> cell, so it belongs to one provider
  instance. In the whole life of the process, whatever is mounted, run, settled or
  refreshed and in whatever order: each provider instance starts \<open>initBackground\<close> at
  most once and makes at most one fallback fetch from it, and a run of its effect that
  finds its guard set starts nothing; once a URL is published in \<open>globalBackgroundUrl\<close>,
  no effect of any instance starts an initialization any more, and an effect that runs
  takes over the published URL; but while no URL is published, the effect of every
  instance whose own guard is unset starts an initialization, and so does the first
  effect of every provider mounted then, however many initializations are under way.
\<close>

theorem one_initBackground_per_provider:
  "count_list (inits (run acts (process_start w))) i \<le> 1 \<and>
   count_list (fallbacks (run acts (process_start w))) i \<le> 1 \<and>
   (guard_set i (env (run acts (process_start w))) \<longrightarrow>
      inits (step (Effect i) (run acts (process_start w))) = inits (run acts (process_start w))) \<and>
   (truthy (globalBackgroundUrl (env (run acts (process_start w)))) \<longrightarrow>
      inits (run later (run acts (process_start w))) = inits (run acts (process_start w)) \<and>
      (i < length (providers (env (run acts (process_start w)))) \<longrightarrow>
         backgroundUrl (providers (env (step (Effect i) (run acts (process_start w)))) ! i) =
           or_empty (globalBackgroundUrl (env (run acts (process_start w)))))) \<and>
   (\<not> truthy (globalBackgroundUrl (env (run acts (process_start w)))) \<longrightarrow>
      (i < length (providers (env (run acts (process_start w)))) \<and>
       \<not> guard_set i (env (run acts (process_start w))) \<longrightarrow>
         inits (step (Effect i) (run acts (process_start w))) =
           inits (run acts (process_start w)) @ [i]) \<and>
      inits (run [Mount, Effect (length (providers (env (run acts (process_start w)))))]
               (run acts (process_start w))) =
        inits (run acts (process_start w)) @
          [length (providers (env (run acts (process_start w))))])"
proof -
  let ?p = "run acts (process_start w)"
  have "guarded_inits ?p"
    by (rule run_guarded_inits) (rule guarded_inits_start)
  then have "distinct (inits ?p)"
    by (simp add: guarded_inits_def)
  then have one: "count_list (inits ?p) i \<le> 1"
    by (rule distinct_count_list)
  have "budget i (process_start w) \<le> count_list (inits (process_start w)) i"
    by (simp add: budget_def process_start_def)
  then have "budget i ?p \<le> count_list (inits ?p) i"
    by (rule run_budget)
  with one have two: "count_list (fallbacks ?p) i \<le> 1"
    by (simp add: budget_def)
  have same: "guard_set i (env ?p) \<longrightarrow> inits (step (Effect i) ?p) = inits ?p"
    by (simp del: step.simps add: step_Effect_inits)
  show ?thesis
    using one two same run_inits_published [of ?p later] effect_adopts [of i ?p]
      effect_starts [of i ?p] mount_effect_inits [of ?p]
    by blast
qed

text \<open>
  On a working network the first provider publishes a URL and a second provider mounted
  afterwards starts nothing; on a network that is down, a second provider mounted while
  the first initialization is under way starts its own.
\<close>

theorem one_initBackground_per_provider_witness:
  "truthy (globalBackgroundUrl
     (env (run [Mount, Effect 0, Settle 0] (process_start (world_with None 0 (always [OnLoad])))))) \<and>
   inits (run [Mount, Effect 1]
     (run [Mount, Effect 0, Settle 0] (process_start (world_with None 0 (always [OnLoad]))))) = [0] \<and>
   \<not> truthy (globalBackgroundUrl
     (env (run [Mount, Effect 0] (process_start (world_with None 0 (always [OnError])))))) \<and>
   inits (run [Mount, Effect 1]
     (run [Mount, Effect 0] (process_start (world_with None 0 (always [OnError]))))) = [0, 1]"
proof -
  let ?ok = "run [Mount, Effect 0, Settle 0] (process_start (world_with None 0 (always [OnLoad])))"
  let ?down = "run [Mount, Effect 0] (process_start (world_with None 0 (always [OnError])))"
  have ok: "truthy (globalBackgroundUrl (env ?ok))" "inits ?ok = [0]"
    by (simp_all add: world_eval process_eval)
  have down: "\<not> truthy (globalBackgroundUrl (env ?down))" "inits ?down = [0]"
    "length (providers (env ?down)) = 1"
    by (simp_all add: world_eval process_eval)
  have "inits (run [Mount, Effect 1] ?ok) = inits ?ok"
    using one_initBackground_per_provider
            [of "[Mount, Effect 0, Settle 0]" "world_with None 0 (always [OnLoad])" 0
               "[Mount, Effect 1]"]
          ok(1)
    by blast
  then have published: "inits (run [Mount, Effect 1] ?ok) = [0]"
    using ok(2) by (rule trans)
  have "inits (run [Mount, Effect (length (providers (env ?down)))] ?down) =
      inits ?down @ [length (providers (env ?down))]"
    using one_initBackground_per_provider
            [of "[Mount, Effect 0]" "world_with None 0 (always [OnError])" 0 "[]"]
          down(1)
    by blast
  then have unpublished: "inits (run [Mount, Effect 1] ?down) = [0, 1]"
    unfolding down(2) down(3) by (simp only: append_Cons append_Nil)
  from ok(1) published down(1) unpublished show ?thesis
    by (intro conjI)
qed

text \<open>
  The claim as first stated counts per process. Two providers mounted before the first
  resolution has completed each find \<open>globalBackgroundUrl\<close> empty and their own guard
  unset: two initializations start, and two fallback fetches are under way.
\<close>

theorem two_providers_counterexample:
  "inits (run [Mount, Mount, Effect 0, Effect 1] (process_start (world_with None 0 (always [OnLoad])))) =
     [0, 1] \<and>
   requests (env (run [Mount, Mount, Effect 0, Effect 1]
                    (process_start (world_with None 0 (always [OnLoad]))))) =
     [''https://loliapi.com/acg/?0'', ''https://loliapi.com/acg/?0''] \<and>
   suspended (run [Mount, Mount, Effect 0, Effect 1] (process_start (world_with None 0 (always [OnLoad])))) =
     [AwaitNew 0 ''https://loliapi.com/acg/?0'' 0, AwaitNew 1 ''https://loliapi.com/acg/?0'' 1]"
  by (simp add: world_eval process_eval)

text \<open>
  Claim C8, amended. No statement of the module resets the guard. Once a provider
  instance has started its initialization, and so also after an initialization that ended
  with the empty string, its guard is set and stays set whatever happens later in the
  process, and every later run of that instance's effect starts no initialization, no
  image load and no storage write. A provider mounted later has a guard of its own,
  which is unset: whenever no URL is published then, its first effect runs the
  initialization again.
\<close>

theorem guard_never_reset:
  assumes "i \<in> set (inits (run acts (process_start w)))"
  shows "guard_set i (env (run later (run acts (process_start w)))) \<and>
         inits (step (Effect i) (run later (run acts (process_start w)))) =
           inits (run later (run acts (process_start w))) \<and>
         suspended (step (Effect i) (run later (run acts (process_start w)))) =
           suspended (run later (run acts (process_start w))) \<and>
         requests (env (step (Effect i) (run later (run acts (process_start w))))) =
           requests (env (run later (run acts (process_start w)))) \<and>
         localStorage (env (step (Effect i) (run later (run acts (process_start w))))) =
           localStorage (env (run later (run acts (process_start w)))) \<and>
         \<not> guard_set (length (providers (env (run later (run acts (process_start w))))))
             (env (step Mount (run later (run acts (process_start w))))) \<and>
         (\<not> truthy (globalBackgroundUrl (env (run later (run acts (process_start w))))) \<longrightarrow>
            inits (run [Mount, Effect (length (providers (env (run later (run acts (process_start w))))))]
                     (run later (run acts (process_start w)))) =
              inits (run later (run acts (process_start w))) @
                [length (providers (env (run later (run acts (process_start w)))))])"
proof -
  let ?p = "run acts (process_start w)"
  let ?q = "run later ?p"
  have "guarded_inits ?p"
    by (rule run_guarded_inits) (rule guarded_inits_start)
  with assms have "guard_set i (env ?p)"
    by (simp add: guarded_inits_def list_all_iff)
  then have "guard_set i (env ?q)"
    by (rule run_guard_kept)
  then have same: "guard_set i (env ?q) \<and>
      inits (step (Effect i) ?q) = inits ?q \<and>
      suspended (step (Effect i) ?q) = suspended ?q \<and>
      requests (env (step (Effect i) ?q)) = requests (env ?q) \<and>
      localStorage (env (step (Effect i) ?q)) = localStorage (env ?q)"
    by (simp add: useEffect_def Let_def setIsLoaded_def setBackgroundUrl_def update_provider_fields)
  have fresh: "\<not> guard_set (length (providers (env ?q))) (env (step Mount ?q))"
    by (simp add: mount_def guard_set_def)
  from same fresh mount_effect_inits [of ?q] show ?thesis
    by blast
qed

text \<open>
  The network is down and the first initialization has failed; time passes and the
  effect of the same provider runs again, then a second provider is mounted.
\<close>

theorem guard_never_reset_witness:
  "0 \<in> set (inits (run [Mount, Effect 0, Settle 0]
                      (process_start (world_with None 0 (always [OnError]))))) \<and>
   \<not> truthy (globalBackgroundUrl
     (env (run [Tick 5] (run [Mount, Effect 0, Settle 0]
        (process_start (world_with None 0 (always [OnError]))))))) \<and>
   guard_set 0
     (env (run [Tick 5] (run [Mount, Effect 0, Settle 0]
        (process_start (world_with None 0 (always [OnError])))))) \<and>
   inits (step (Effect 0) (run [Tick 5] (run [Mount, Effect 0, Settle 0]
        (process_start (world_with None 0 (always [OnError])))))) = [0] \<and>
   suspended (step (Effect 0) (run [Tick 5] (run [Mount, Effect 0, Settle 0]
        (process_start (world_with None 0 (always [OnError])))))) = [] \<and>
   inits (run [Mount, Effect 1] (run [Tick 5] (run [Mount, Effect 0, Settle 0]
        (process_start (world_with None 0 (always [OnError])))))) = [0, 1]"
proof -
  let ?p = "run [Mount, Effect 0, Settle 0] (process_start (world_with None 0 (always [OnError])))"
  let ?q = "run [Tick 5] ?p"
  have h: "0 \<in> set (inits ?p)"
    by (simp add: world_eval process_eval)
  have g: "\<not> truthy (globalBackgroundUrl (env ?q))"
    and i: "inits ?q = [0]"
    and t: "suspended ?q = []"
    and n: "length (providers (env ?q)) = 1"
    by (simp_all add: world_eval process_eval)
  note kept = guard_never_reset [OF h, of "[Tick 5]"]
  have c1: "guard_set 0 (env ?q)"
    using kept by blast
  have "inits (step (Effect 0) ?q) = inits ?q"
    using kept by blast
  then have c2: "inits (step (Effect 0) ?q) = [0]"
    using i by (rule trans)
  have "suspended (step (Effect 0) ?q) = suspended ?q"
    using kept by blast
  then have c3: "suspended (step (Effect 0) ?q) = []"
    using t by (rule trans)
  have "inits (run [Mount, Effect (length (providers (env ?q)))] ?q) =
      inits ?q @ [length (providers (env ?q))]"
    using kept g by blast
  then have c4: "inits (run [Mount, Effect 1] ?q) = [0, 1]"
    unfolding i n by (simp only: append_Cons append_Nil)
  from h g c1 c2 c3 c4 show ?thesis
    by (intro conjI)
qed

text \<open>
  The claim as first stated speaks of every later activation in the process. A provider
  mounted after the failed initialization has a guard of its own, which is unset: it
  finds \<open>globalBackgroundUrl\<close> empty and runs the initialization again.
\<close>

theorem remount_counterexample:
  "globalBackgroundUrl
     (env (run [Mount, Effect 0, Settle 0] (process_start (world_with None 0 (always [OnError]))))) =
     None \<and>
   suspended (run [Mount, Effect 0, Settle 0] (process_start (world_with None 0 (always [OnError])))) =
     [] \<and>
   inits (run [Mount, Effect 0, Settle 0] (process_start (world_with None 0 (always [OnError])))) =
     [0] \<and>
   inits (run [Mount, Effect 0, Settle 0, Mount, Effect 1]
            (process_start (world_with None 0 (always [OnError])))) =
     [0, 1]"
  by (simp add: world_eval process_eval)


end
